theory Spec2Isabelle
  imports Main
begin

section \<open>ThreadSafeQueue.hpp\<close>

text \<open>
  The class \<^verbatim>\<open>ThreadSafeQueue<T>\<close> holds a \<^verbatim>\<open>std::deque<T> queue_\<close> and a flag
  \<^verbatim>\<open>bool closed_\<close> (initially false). Every member function takes \<^verbatim>\<open>mutex_\<close> for the
  whole of its access to the two fields, so each call is one atomic step on the pair; the
  record below is that pair and each member function is a function on it. The fields are
  written \<open>tsq_queue\<close> and \<open>tsq_closed\<close> (an identifier cannot end in an underscore).
\<close>

record 'a ThreadSafeQueue =
  tsq_queue :: "'a list"
  tsq_closed :: bool

definition ThreadSafeQueue_new :: "'a ThreadSafeQueue" where
  "ThreadSafeQueue_new = \<lparr>tsq_queue = [], tsq_closed = False\<rparr>"

text \<open>\<^verbatim>\<open>push\<close>: returns at once when \<^verbatim>\<open>closed_\<close>, otherwise \<^verbatim>\<open>push_back\<close>.\<close>

definition push :: "'a ThreadSafeQueue \<Rightarrow> 'a \<Rightarrow> 'a ThreadSafeQueue" where
  "push q v = (if tsq_closed q then q else q\<lparr>tsq_queue := tsq_queue q @ [v]\<rparr>)"

text \<open>
  \<^verbatim>\<open>bool pop(T& out)\<close>. The condition variable is waited on until
  \<^verbatim>\<open>closed_ || !queue_.empty()\<close>; while that is false the calling thread does not return,
  which is the value \<open>None\<close>. Otherwise the result is the returned flag, the value of
  \<^verbatim>\<open>out\<close> after the call (untouched when the flag is false) and the queue after the call.
\<close>

definition pop :: "'a ThreadSafeQueue \<Rightarrow> 'a \<Rightarrow> (bool \<times> 'a \<times> 'a ThreadSafeQueue) option" where
  "pop q out =
     (if tsq_closed q \<or> tsq_queue q \<noteq> [] then
        (case tsq_queue q of
           [] \<Rightarrow> Some (False, out, q)
         | front # rest \<Rightarrow> Some (True, front, q\<lparr>tsq_queue := rest\<rparr>))
      else None)"

definition close :: "'a ThreadSafeQueue \<Rightarrow> 'a ThreadSafeQueue" where
  "close q = q\<lparr>tsq_closed := True\<rparr>"

definition closed :: "'a ThreadSafeQueue \<Rightarrow> bool" where
  "closed q = tsq_closed q"

text \<open>
  Drivers for sequences of calls: \<open>push_all\<close> issues one \<open>push\<close> per element, in list
  order; \<open>pop_n k\<close> issues \<open>k\<close> successive \<open>pop\<close> calls and collects what they hand out. It
  is \<open>None\<close> as soon as one of the calls blocks or returns false.
\<close>

definition push_all :: "'a ThreadSafeQueue \<Rightarrow> 'a list \<Rightarrow> 'a ThreadSafeQueue" where
  "push_all q vs = foldl push q vs"

fun pop_n :: "nat \<Rightarrow> 'a ThreadSafeQueue \<Rightarrow> 'a \<Rightarrow> ('a list \<times> 'a ThreadSafeQueue) option" where
  "pop_n 0 q out = Some ([], q)"
| "pop_n (Suc k) q out =
     (case pop q out of
        None \<Rightarrow> None
      | Some (ok, out', q') \<Rightarrow>
          if ok then (case pop_n k q' out' of
                        None \<Rightarrow> None
                      | Some (vs, q'') \<Rightarrow> Some (out' # vs, q''))
          else None)"

section \<open>Character traits\<close>

text \<open>
  The two stream buffers use \<^verbatim>\<open>std::char_traits<char>\<close>. Its \<^verbatim>\<open>int_type\<close> is \<^verbatim>\<open>int\<close>;
  \<^verbatim>\<open>eof()\<close> is \<open>-1\<close>; \<^verbatim>\<open>to_int_type\<close> converts through \<^verbatim>\<open>unsigned char\<close>, so its values
  are \<open>0..255\<close>; \<^verbatim>\<open>to_char_type\<close> keeps the low eight bits; \<^verbatim>\<open>not_eof\<close> returns its
  argument unless that is \<^verbatim>\<open>eof()\<close>, for which both libstdc++ and libc++ return \<open>0\<close>.
\<close>

abbreviation CR :: char where "CR \<equiv> CHR 0x0D"
abbreviation LF :: char where "LF \<equiv> CHR 0x0A"

definition eof :: int where
  "eof = - 1"

definition to_int_type :: "char \<Rightarrow> int" where
  "to_int_type c = of_char c"

definition to_char_type :: "int \<Rightarrow> char" where
  "to_char_type i = char_of i"

definition eq_int_type :: "int \<Rightarrow> int \<Rightarrow> bool" where
  "eq_int_type a b = (a = b)"

definition not_eof :: "int \<Rightarrow> int" where
  "not_eof i = (if eq_int_type i eof then 0 else i)"

section \<open>LineBufferStream.hpp\<close>

text \<open>
  \<^verbatim>\<open>LineCallback\<close> is a \<^verbatim>\<open>std::function<void(const std::string&)>\<close>. It may be empty
  (\<open>None\<close>); a call acts on whatever lies outside the stream buffer, which is the type
  \<open>'w\<close>, threaded through every member function that can reach the callback. The callback
  is taken not to write to the stream it serves.
\<close>

type_synonym 'w LineCallback = "(string \<Rightarrow> 'w \<Rightarrow> 'w) option"

record 'w LineBufferStreambuf =
  lbs_callback :: "'w LineCallback"
  lbs_buffer :: string

definition LineBufferStreambuf_new :: "'w LineCallback \<Rightarrow> 'w LineBufferStreambuf" where
  "LineBufferStreambuf_new cb = \<lparr>lbs_callback = cb, lbs_buffer = []\<rparr>"

definition flush_line :: "'w LineBufferStreambuf \<Rightarrow> 'w \<Rightarrow> 'w LineBufferStreambuf \<times> 'w" where
  "flush_line s w =
     (if lbs_callback s = None \<or> lbs_buffer s = [] then (s, w)
      else (s\<lparr>lbs_buffer := []\<rparr>, the (lbs_callback s) (lbs_buffer s) w))"

definition overflow ::
  "'w LineBufferStreambuf \<Rightarrow> int \<Rightarrow> 'w \<Rightarrow> int \<times> 'w LineBufferStreambuf \<times> 'w" where
  "overflow s ch w =
     (if eq_int_type ch eof then (not_eof ch, s, w)
      else let c = to_char_type ch in
        if c = CR then (not_eof ch, s, w)
        else if c = LF then (not_eof ch, flush_line s w)
        else (not_eof ch, s\<lparr>lbs_buffer := lbs_buffer s @ [c]\<rparr>, w))"

definition sync :: "'w LineBufferStreambuf \<Rightarrow> 'w \<Rightarrow> int \<times> 'w LineBufferStreambuf \<times> 'w" where
  "sync s w = (0, flush_line s w)"

text \<open>
  The stream buffer never sets a put area, so \<^verbatim>\<open>sputc\<close> hands every character written to
  the stream to \<open>overflow\<close>, one at a time, and a flush of the stream calls \<open>sync\<close>.
  \<open>run_ops\<close> is that driver for a sequence of writes and flushes; \<open>written\<close> is the
  characters of the sequence.
\<close>

datatype stream_op = Put char | Flush

fun run_ops ::
  "'w LineBufferStreambuf \<Rightarrow> stream_op list \<Rightarrow> 'w \<Rightarrow> 'w LineBufferStreambuf \<times> 'w" where
  "run_ops s [] w = (s, w)"
| "run_ops s (Put c # ops) w =
     (case overflow s (to_int_type c) w of (r, s', w') \<Rightarrow> run_ops s' ops w')"
| "run_ops s (Flush # ops) w =
     (case sync s w of (r, s', w') \<Rightarrow> run_ops s' ops w')"

fun written :: "stream_op list \<Rightarrow> string" where
  "written [] = []"
| "written (Put c # ops) = c # written ops"
| "written (Flush # ops) = written ops"

text \<open>A callback that appends each line it is given to a log, for counting invocations.\<close>

definition record_line :: "string \<Rightarrow> string list \<Rightarrow> string list" where
  "record_line l log = log @ [l]"

section \<open>CommandStream.hpp\<close>

text \<open>
  The get area of the \<^verbatim>\<open>std::streambuf\<close> base is three pointers into one array. Here it is
  the array they point into (\<open>csb_region\<close>: the member \<^verbatim>\<open>buffer_[1]\<close> or the characters
  of \<^verbatim>\<open>current_\<close>) and three offsets into it. The characters of a \<^verbatim>\<open>std::string\<close> of size
  \<open>n\<close> are an array of \<open>n + 1\<close> elements, the last one the terminating null character
  (\<open>storage\<close>). A read through \<^verbatim>\<open>gptr()\<close> outside the array is the result \<open>OutOfBounds\<close>;
  a \<open>pop\<close> that does not return is the result \<open>Blocked\<close>.
\<close>

datatype get_region = Placeholder | CurrentData

record CommandStreambuf =
  csb_queue :: "string ThreadSafeQueue"
  csb_current :: string
  csb_buffer :: "char list"
  csb_region :: get_region
  csb_eback :: nat
  csb_gptr :: nat
  csb_egptr :: nat

definition setg ::
  "get_region \<Rightarrow> nat \<Rightarrow> nat \<Rightarrow> nat \<Rightarrow> CommandStreambuf \<Rightarrow> CommandStreambuf" where
  "setg r gbeg gnext gend s =
     s\<lparr>csb_region := r, csb_eback := gbeg, csb_gptr := gnext, csb_egptr := gend\<rparr>"

text \<open>The constructor; \<open>b\<close> is the indeterminate content of \<^verbatim>\<open>buffer_[0]\<close>.\<close>

definition CommandStreambuf_new :: "string ThreadSafeQueue \<Rightarrow> char \<Rightarrow> CommandStreambuf" where
  "CommandStreambuf_new q b =
     setg Placeholder 0 0 0
       \<lparr>csb_queue = q, csb_current = [], csb_buffer = [b], csb_region = Placeholder,
        csb_eback = 0, csb_gptr = 0, csb_egptr = 0\<rparr>"

definition storage :: "CommandStreambuf \<Rightarrow> char list" where
  "storage s = (case csb_region s of
                  Placeholder \<Rightarrow> csb_buffer s
                | CurrentData \<Rightarrow> csb_current s @ [CHR 0x00])"

definition read_gptr :: "CommandStreambuf \<Rightarrow> char option" where
  "read_gptr s =
     (if csb_gptr s < length (storage s) then Some (storage s ! csb_gptr s) else None)"

text \<open>The bytes from \<^verbatim>\<open>gptr()\<close> up to \<^verbatim>\<open>egptr()\<close>: what the reader can consume.\<close>

definition get_area :: "CommandStreambuf \<Rightarrow> char list" where
  "get_area s = take (csb_egptr s - csb_gptr s) (drop (csb_gptr s) (storage s))"

datatype underflow_result = Blocked | OutOfBounds | Returned int CommandStreambuf

definition underflow :: "CommandStreambuf \<Rightarrow> underflow_result" where
  "underflow s =
     (if csb_gptr s < csb_egptr s then
        (case read_gptr s of
           None \<Rightarrow> OutOfBounds
         | Some c \<Rightarrow> Returned (to_int_type c) s)
      else
        (case pop (csb_queue s) (csb_current s) of
           None \<Rightarrow> Blocked
         | Some (ok, out, q') \<Rightarrow>
             let s1 = s\<lparr>csb_queue := q', csb_current := out\<rparr> in
             if \<not> ok then Returned eof s1
             else
               let s2 = (if csb_current s1 \<noteq> [] \<and> last (csb_current s1) \<noteq> LF
                         then s1\<lparr>csb_current := csb_current s1 @ [LF]\<rparr> else s1);
                   s3 = setg CurrentData 0 0 (length (csb_current s2)) s2
               in (case read_gptr s3 of
                     None \<Rightarrow> OutOfBounds
                   | Some c \<Rightarrow> Returned (to_int_type c) s3)))"

text \<open>What a call of \<open>underflow\<close> leaves for the reader, when it returns.\<close>

definition exposed :: "underflow_result \<Rightarrow> char list option" where
  "exposed r = (case r of Returned i s' \<Rightarrow> Some (get_area s') | _ \<Rightarrow> None)"

text \<open>The number of newline characters a byte sequence ends with.\<close>

definition trailing_newlines :: "char list \<Rightarrow> nat" where
  "trailing_newlines bs = length (takeWhile (\<lambda>c. c = LF) (rev bs))"

section \<open>EmbeddedUCI.cpp\<close>

text \<open>
  The process state that \<^verbatim>\<open>RunStockfishUCI\<close> acts on: the stream buffers bound to
  \<^verbatim>\<open>std::cin\<close> and \<^verbatim>\<open>std::cout\<close> (as addresses), the stream buffers of the two classes
  above that live at an address, and what the line callbacks act on. A write to
  \<^verbatim>\<open>std::cout\<close> goes to the stream buffer bound at that moment; a buffer of another class
  is outside this development and a write to it changes nothing here.
\<close>

type_synonym streambuf_ptr = nat

record 'w process =
  cin_rdbuf :: streambuf_ptr
  cout_rdbuf :: streambuf_ptr
  line_buffers :: "streambuf_ptr \<Rightarrow> 'w LineBufferStreambuf option"
  command_bufs :: "streambuf_ptr \<Rightarrow> CommandStreambuf option"
  world :: 'w

record StreamRedirector =
  oldInBuf :: streambuf_ptr
  oldOutBuf :: streambuf_ptr

text \<open>
  The constructor and destructor of \<^verbatim>\<open>StreamRedirector\<close>; \<^verbatim>\<open>rdbuf(sb)\<close> installs \<open>sb\<close> and
  returns the buffer bound before. The streams \<^verbatim>\<open>in\<close> and \<^verbatim>\<open>out\<close> are given by what their
  \<^verbatim>\<open>rdbuf()\<close> returns.
\<close>

definition StreamRedirector_ctor ::
  "streambuf_ptr \<Rightarrow> streambuf_ptr \<Rightarrow> 'w process \<Rightarrow> StreamRedirector \<times> 'w process" where
  "StreamRedirector_ctor in_rdbuf out_rdbuf p =
     (let old_in = cin_rdbuf p;
          p1 = p\<lparr>cin_rdbuf := in_rdbuf\<rparr>;
          old_out = cout_rdbuf p1;
          p2 = p1\<lparr>cout_rdbuf := out_rdbuf\<rparr>
      in (\<lparr>oldInBuf = old_in, oldOutBuf = old_out\<rparr>, p2))"

definition StreamRedirector_dtor :: "StreamRedirector \<Rightarrow> 'w process \<Rightarrow> 'w process" where
  "StreamRedirector_dtor r p =
     (let p1 = p\<lparr>cin_rdbuf := oldInBuf r\<rparr> in p1\<lparr>cout_rdbuf := oldOutBuf r\<rparr>)"

definition cout_write :: "stream_op list \<Rightarrow> 'w process \<Rightarrow> 'w process" where
  "cout_write ops p =
     (case line_buffers p (cout_rdbuf p) of
        None \<Rightarrow> p
      | Some sb \<Rightarrow>
          (case run_ops sb ops (world p) of
             (sb', w') \<Rightarrow>
               p\<lparr>line_buffers := (line_buffers p)(cout_rdbuf p \<mapsto> sb'), world := w'\<rparr>))"

text \<open>
  \<^verbatim>\<open>RunStockfishUCI\<close>. Two parts of it are Stockfish's own code: \<^verbatim>\<open>engine_info()\<close>, taken as
  the string it returns, and everything from \<^verbatim>\<open>Bitboards::init()\<close> to the end of
  \<^verbatim>\<open>uci.loop()\<close>, taken as a function \<open>engine\<close> of the process state that returns
  normally, leaves by an exception that unwinds the stack, or does not come back
  (\<open>None\<close>). \<^verbatim>\<open>std::endl\<close> writes a newline and flushes. The destructor of the local
  \<^verbatim>\<open>redirect\<close> runs on both ways out.
\<close>

datatype exit_path = NormalReturn | Unwind

definition RunStockfishUCI ::
  "streambuf_ptr \<Rightarrow> streambuf_ptr \<Rightarrow> string
     \<Rightarrow> ('w process \<Rightarrow> (exit_path \<times> 'w process) option)
     \<Rightarrow> 'w process \<Rightarrow> (exit_path \<times> 'w process) option" where
  "RunStockfishUCI in_rdbuf out_rdbuf engine_info engine p =
     (case StreamRedirector_ctor in_rdbuf out_rdbuf p of
        (redirect, p1) \<Rightarrow>
          let p2 = cout_write (map Put engine_info @ [Put LF, Flush]) p1 in
          (case engine p2 of
             None \<Rightarrow> None
           | Some (e, p3) \<Rightarrow> Some (e, StreamRedirector_dtor redirect p3)))"

text \<open>An engine that writes a given sequence to \<^verbatim>\<open>std::cout\<close> and then leaves by \<open>e\<close>.\<close>

definition scripted_engine ::
  "stream_op list \<Rightarrow> exit_path \<Rightarrow> 'w process \<Rightarrow> (exit_path \<times> 'w process) option" where
  "scripted_engine ops e p = Some (e, cout_write ops p)"

section \<open>Facts about the queue\<close>

lemma push_all_Nil [simp]: "push_all q [] = q"
  by (simp add: push_all_def)

lemma push_all_Cons [simp]: "push_all q (v # vs) = push_all (push q v) vs"
  by (simp add: push_all_def)

lemma push_all_open:
  "\<not> tsq_closed q \<Longrightarrow> push_all q vs = q\<lparr>tsq_queue := tsq_queue q @ vs\<rparr>"
proof (induction vs arbitrary: q)
  case Nil
  then show ?case by simp
next
  case (Cons v vs)
  have "\<not> tsq_closed (push q v)"
    using Cons.prems by (simp add: push_def)
  from Cons.IH [OF this] Cons.prems show ?case
    by (simp add: push_def)
qed

lemma push_all_closed: "tsq_closed q \<Longrightarrow> push_all q vs = q"
  by (induction vs) (simp_all add: push_def)

lemma pop_n_take:
  "k \<le> length (tsq_queue q) \<Longrightarrow>
     pop_n k q out = Some (take k (tsq_queue q), q\<lparr>tsq_queue := drop k (tsq_queue q)\<rparr>)"
proof (induction k arbitrary: q out)
  case 0
  then show ?case by simp
next
  case (Suc k)
  then obtain x xs where q: "tsq_queue q = x # xs"
    by (cases "tsq_queue q") auto
  with Suc.prems have len: "k \<le> length (tsq_queue (q\<lparr>tsq_queue := xs\<rparr>))"
    by simp
  have "pop q out = Some (True, x, q\<lparr>tsq_queue := xs\<rparr>)"
    by (simp add: pop_def q)
  with Suc.IH [OF len, of x] q show ?case
    by simp
qed

lemma pop_n_sublist:
  "pop_n k q out = Some (vs, q') \<Longrightarrow>
     vs = take k (tsq_queue q) \<and> k \<le> length (tsq_queue q) \<and> tsq_closed q' = tsq_closed q"
proof (induction k arbitrary: q out vs q')
  case 0
  then show ?case by simp
next
  case (Suc k)
  show ?case
  proof (cases "tsq_queue q")
    case Nil
    with Suc.prems show ?thesis
      by (simp add: pop_def split: if_splits)
  next
    case (Cons x xs)
    then have p: "pop q out = Some (True, x, q\<lparr>tsq_queue := xs\<rparr>)"
      by (simp add: pop_def)
    with Suc.prems obtain ws where
      r: "pop_n k (q\<lparr>tsq_queue := xs\<rparr>) x = Some (ws, q')" and vs: "vs = x # ws"
      by (auto split: option.splits)
    from Suc.IH [OF r] vs Cons show ?thesis
      by simp
  qed
qed

section \<open>Claims about the queue\<close>

text \<open>
  C1. On a queue that has not been closed, after any sequence of \<open>push\<close> calls, successive
  \<open>pop\<close> calls hand out the items in the order they were pushed: the first \<open>k\<close> pops return
  the first \<open>k\<close> items of what the queue held followed by what was pushed, each exactly once,
  and leave exactly the remaining items behind. In particular a new queue that receives
  \<open>vs\<close> hands back \<open>vs\<close>.
\<close>

theorem C1_fifo_order:
  assumes "\<not> tsq_closed q" and "k \<le> length (tsq_queue q @ vs)"
  shows "pop_n k (push_all q vs) out =
           Some (take k (tsq_queue q @ vs), q\<lparr>tsq_queue := drop k (tsq_queue q @ vs)\<rparr>)"
proof -
  have "push_all q vs = q\<lparr>tsq_queue := tsq_queue q @ vs\<rparr>"
    using assms(1) by (rule push_all_open)
  moreover have "k \<le> length (tsq_queue (q\<lparr>tsq_queue := tsq_queue q @ vs\<rparr>))"
    using assms(2) by simp
  ultimately show ?thesis
    using pop_n_take [of k "q\<lparr>tsq_queue := tsq_queue q @ vs\<rparr>" out] by simp
qed

theorem C1_fifo_order_witness:
  "pop_n 3 (push (push (push ThreadSafeQueue_new ''a'') ''b'') ''c'') ''''
     = Some ([''a'', ''b'', ''c''], ThreadSafeQueue_new)"
  using C1_fifo_order [of ThreadSafeQueue_new 3 "[''a'', ''b'', ''c'']" "''''"]
  by (simp add: ThreadSafeQueue_new_def)

text \<open>
  C6. On a closed queue \<open>push\<close> changes neither the items nor the flag and has no way to
  fail; whatever number of \<open>pop\<close> calls follow, they hand out only items the queue held
  before the \<open>push\<close>, in order, and the queue stays closed. With nothing held the next
  \<open>pop\<close> reports end of input at once.
\<close>

theorem C6_push_after_close_inert:
  assumes "tsq_closed q"
  shows "push q y = q
         \<and> closed (push q y)
         \<and> (pop_n k (push q y) out = Some (vs, q') \<longrightarrow>
              vs = take k (tsq_queue q) \<and> k \<le> length (tsq_queue q) \<and> tsq_closed q')
         \<and> (tsq_queue q = [] \<longrightarrow> pop (push q y) out = Some (False, out, q))"
proof -
  have same: "push q y = q"
    using assms by (simp add: push_def)
  have later: "vs = take k (tsq_queue q) \<and> k \<le> length (tsq_queue q) \<and> tsq_closed q'"
    if "pop_n k q out = Some (vs, q')"
    using pop_n_sublist [OF that] assms by simp
  have eoi: "pop q out = Some (False, out, q)" if "tsq_queue q = []"
    using that assms by (simp add: pop_def)
  from same later eoi assms show ?thesis
    by (simp add: closed_def)
qed

theorem C6_push_after_close_inert_witness:
  "push (close ThreadSafeQueue_new) ''y'' = close ThreadSafeQueue_new
   \<and> pop (push (close ThreadSafeQueue_new) ''y'') '''' = Some (False, '''', close ThreadSafeQueue_new)
   \<and> pop_n 1 (push (close (push ThreadSafeQueue_new ''x'')) ''y'') ''''
       = Some ([''x''], close ThreadSafeQueue_new)"
proof -
  let ?c = "close (ThreadSafeQueue_new :: string ThreadSafeQueue)"
  let ?d = "close (push (ThreadSafeQueue_new :: string ThreadSafeQueue) ''x'')"
  have c: "tsq_closed ?c" and d: "tsq_closed ?d"
    by (simp_all add: close_def)
  have e: "tsq_queue ?c = []"
    by (simp add: close_def ThreadSafeQueue_new_def)
  note t = C6_push_after_close_inert [OF c, of "''y''" 0 "''''" "[]" ?c]
  note u = C6_push_after_close_inert [OF d, of "''y''" 0 "''''" "[]" ?d]
  have 1: "push ?c ''y'' = ?c"
    using t by (rule conjunct1)
  have 2: "pop (push ?c ''y'') '''' = Some (False, '''', ?c)"
    using t e by blast
  have "push ?d ''y'' = ?d"
    using u by (rule conjunct1)
  moreover have "pop_n 1 ?d '''' = Some ([''x''], ?c)"
    by (simp add: pop_def close_def push_def ThreadSafeQueue_new_def)
  ultimately have 3: "pop_n 1 (push ?d ''y'') '''' = Some ([''x''], ?c)"
    by simp
  from 1 2 3 show ?thesis
    by blast
qed

section \<open>Facts about the character traits and the line buffer\<close>

lemma of_char_nonneg: "(0::int) \<le> of_char c"
proof -
  have "(0::int) \<le> of_char c mod 256"
    by (rule pos_mod_sign) simp
  then show ?thesis
    by (simp only: of_char_mod_256)
qed

lemma to_int_type_not_eof: "\<not> eq_int_type (to_int_type c) eof"
  using of_char_nonneg [of c] by (simp add: to_int_type_def eof_def eq_int_type_def)

lemma to_char_type_inv: "to_char_type (to_int_type c) = c"
  by (simp add: to_int_type_def to_char_type_def)

lemma not_eof_to_int_type: "not_eof (to_int_type c) = to_int_type c"
  by (simp add: not_eof_def to_int_type_not_eof)

lemma overflow_CR: "overflow s (to_int_type CR) w = (to_int_type CR, s, w)"
  by (simp add: overflow_def to_int_type_not_eof to_char_type_inv not_eof_to_int_type)

lemma overflow_LF: "overflow s (to_int_type LF) w = (to_int_type LF, flush_line s w)"
  by (simp add: overflow_def to_int_type_not_eof to_char_type_inv not_eof_to_int_type)

lemma overflow_other:
  "c \<noteq> CR \<Longrightarrow> c \<noteq> LF \<Longrightarrow>
     overflow s (to_int_type c) w = (to_int_type c, s\<lparr>lbs_buffer := lbs_buffer s @ [c]\<rparr>, w)"
  by (simp add: overflow_def to_int_type_not_eof to_char_type_inv not_eof_to_int_type)

lemma flush_line_Some:
  "lbs_callback s = Some cb \<Longrightarrow> lbs_buffer s \<noteq> [] \<Longrightarrow>
     flush_line s w = (s\<lparr>lbs_buffer := []\<rparr>, cb (lbs_buffer s) w)"
  by (simp add: flush_line_def)

lemma flush_line_empty: "lbs_buffer s = [] \<Longrightarrow> flush_line s w = (s, w)"
  by (simp add: flush_line_def)

lemma flush_line_None: "lbs_callback s = None \<Longrightarrow> flush_line s w = (s, w)"
  by (simp add: flush_line_def)

lemma run_ops_append:
  "run_ops s (ops @ ops') w = (case run_ops s ops w of (s', w') \<Rightarrow> run_ops s' ops' w')"
proof (induction s ops w rule: run_ops.induct)
  case (1 s w)
  then show ?case by simp
next
  case (2 s c ops w)
  then show ?case by (simp split: prod.splits)
next
  case (3 s ops w)
  then show ?case by (simp split: prod.splits)
qed

lemma run_ops_plain:
  "CR \<notin> set cs \<Longrightarrow> LF \<notin> set cs \<Longrightarrow>
     run_ops s (map Put cs) w = (s\<lparr>lbs_buffer := lbs_buffer s @ cs\<rparr>, w)"
proof (induction cs arbitrary: s)
  case Nil
  then show ?case by simp
next
  case (Cons c cs)
  then have c: "c \<noteq> CR" "c \<noteq> LF" and cs: "CR \<notin> set cs" "LF \<notin> set cs"
    by auto
  show ?case
    using Cons.IH [OF cs, of "s\<lparr>lbs_buffer := lbs_buffer s @ [c]\<rparr>"]
    by (simp add: overflow_other [OF c])
qed

lemma run_ops_None:
  "lbs_callback s = None \<Longrightarrow>
     run_ops s ops w =
       (s\<lparr>lbs_buffer := lbs_buffer s @ filter (\<lambda>c. c \<noteq> CR \<and> c \<noteq> LF) (written ops)\<rparr>, w)"
proof (induction ops arbitrary: s)
  case Nil
  then show ?case by simp
next
  case (Cons op ops)
  show ?case
  proof (cases op)
    case Flush
    have "sync s w = (0, s, w)"
      using Cons.prems by (simp add: sync_def flush_line_None)
    with Cons Flush show ?thesis by simp
  next
    case (Put c)
    show ?thesis
    proof (cases "c = CR \<or> c = LF")
      case True
      then have "overflow s (to_int_type c) w = (to_int_type c, s, w)"
        using Cons.prems by (auto simp: overflow_CR overflow_LF flush_line_None)
      with Cons Put True show ?thesis by auto
    next
      case False
      then have o: "overflow s (to_int_type c) w
          = (to_int_type c, s\<lparr>lbs_buffer := lbs_buffer s @ [c]\<rparr>, w)"
        by (simp add: overflow_other)
      have "lbs_callback (s\<lparr>lbs_buffer := lbs_buffer s @ [c]\<rparr>) = None"
        using Cons.prems by simp
      from Cons.IH [OF this] o False Put show ?thesis
        by simp
    qed
  qed
qed

lemma run_ops_line:
  assumes "lbs_callback s = Some cb" and "lbs_buffer s = []"
    and "cs \<noteq> []" and "CR \<notin> set cs" and "LF \<notin> set cs"
  shows "run_ops s (map Put cs @ [Flush]) w = (s, cb cs w)"
    and "run_ops s (map Put cs @ [Put LF, Flush]) w = (s, cb cs w)"
proof -
  let ?s = "s\<lparr>lbs_buffer := cs\<rparr>"
  have fill: "run_ops s (map Put cs) w = (?s, w)"
    using run_ops_plain [OF assms(4,5), of s w] assms(2) by simp
  have fl: "flush_line ?s w = (s, cb cs w)"
    using assms(1,2,3) flush_line_Some [of ?s cb w] by simp
  have fe: "flush_line s w' = (s, w')" for w'
    using assms(2) by (rule flush_line_empty)
  show "run_ops s (map Put cs @ [Flush]) w = (s, cb cs w)"
    by (simp add: run_ops_append fill sync_def fl)
  show "run_ops s (map Put cs @ [Put LF, Flush]) w = (s, cb cs w)"
    by (simp add: run_ops_append fill overflow_LF sync_def fl fe)
qed

section \<open>Claims about the line buffer\<close>

text \<open>
  C3. Written one character at a time to a line buffer constructed with a callback, the
  sequence \<open>abc\<close>, carriage return, newline, \<open>def\<close>, newline invokes the callback exactly
  twice, on \<open>abc\<close> and then on \<open>def\<close>, and two newlines alone invoke it not at all. In
  every state: a carriage return changes nothing; a newline on a non-empty buffer invokes
  the callback once on the buffer's content (without the newline) and empties the buffer;
  a newline on an empty buffer, or with no callback set, changes nothing and invokes
  nothing; every other character is appended to the buffer and invokes nothing.
\<close>

theorem C3_line_splitting:
  "run_ops (LineBufferStreambuf_new (Some cb)) (map Put (''abc'' @ [CR, LF] @ ''def'' @ [LF])) w
     = (LineBufferStreambuf_new (Some cb), cb ''def'' (cb ''abc'' w))
   \<and> run_ops (LineBufferStreambuf_new (Some cb)) (map Put [LF, LF]) w
     = (LineBufferStreambuf_new (Some cb), w)
   \<and> overflow s (to_int_type CR) w = (to_int_type CR, s, w)
   \<and> (lbs_callback s = Some cb \<and> lbs_buffer s \<noteq> [] \<longrightarrow>
        overflow s (to_int_type LF) w
          = (to_int_type LF, s\<lparr>lbs_buffer := []\<rparr>, cb (lbs_buffer s) w))
   \<and> (lbs_buffer s = [] \<or> lbs_callback s = None \<longrightarrow>
        overflow s (to_int_type LF) w = (to_int_type LF, s, w))
   \<and> (c \<noteq> CR \<and> c \<noteq> LF \<longrightarrow>
        overflow s (to_int_type c) w
          = (to_int_type c, s\<lparr>lbs_buffer := lbs_buffer s @ [c]\<rparr>, w))"
proof -
  have two: "run_ops (LineBufferStreambuf_new (Some cb))
               (map Put (''abc'' @ [CR, LF] @ ''def'' @ [LF])) w
             = (LineBufferStreambuf_new (Some cb), cb ''def'' (cb ''abc'' w))"
    by (simp add: overflow_CR overflow_LF overflow_other flush_line_def
        LineBufferStreambuf_new_def)
  have none: "run_ops (LineBufferStreambuf_new (Some cb)) (map Put [LF, LF]) w
             = (LineBufferStreambuf_new (Some cb), w)"
    by (simp add: overflow_LF flush_line_def LineBufferStreambuf_new_def)
  show ?thesis
    using two none
    by (auto simp: overflow_CR overflow_LF overflow_other flush_line_Some flush_line_empty
        flush_line_None)
qed

theorem C3_line_splitting_witness:
  "run_ops (LineBufferStreambuf_new (Some record_line))
       (map Put (''abc'' @ [CR, LF] @ ''def'' @ [LF])) []
     = (LineBufferStreambuf_new (Some record_line), [''abc'', ''def''])
   \<and> overflow \<lparr>lbs_callback = Some record_line, lbs_buffer = ''xy''\<rparr> (to_int_type LF) []
     = (10, \<lparr>lbs_callback = Some record_line, lbs_buffer = []\<rparr>, [''xy''])
   \<and> overflow \<lparr>lbs_callback = Some record_line, lbs_buffer = []\<rparr> (to_int_type LF) []
     = (10, \<lparr>lbs_callback = Some record_line, lbs_buffer = []\<rparr>, [])
   \<and> overflow \<lparr>lbs_callback = Some record_line, lbs_buffer = ''xy''\<rparr> (to_int_type (CHR ''z'')) []
     = (122, \<lparr>lbs_callback = Some record_line, lbs_buffer = ''xyz''\<rparr>, [])"
  using C3_line_splitting
      [of record_line "[]" "\<lparr>lbs_callback = Some record_line, lbs_buffer = ''xy''\<rparr>" "CHR ''z''"]
    C3_line_splitting
      [of record_line "[]" "\<lparr>lbs_callback = Some record_line, lbs_buffer = []\<rparr>" "CHR ''z''"]
  by (simp add: record_line_def to_int_type_def)

text \<open>
  C9. While the callback is empty, as it is from the constructor on when that is given an
  empty callback, \<open>flush_line\<close> changes nothing, so neither a newline nor \<open>sync\<close> empties the
  buffer and nothing is invoked: after any sequence of writes and flushes the buffer holds
  what it held before followed by every character written that is neither a carriage
  return nor a newline, the callback is still empty and the outside world is untouched.
\<close>

theorem C9_empty_callback_retains:
  assumes "lbs_callback s = None"
  shows "lbs_callback (LineBufferStreambuf_new None) = None
         \<and> flush_line s w = (s, w)
         \<and> overflow s (to_int_type LF) w = (to_int_type LF, s, w)
         \<and> sync s w = (0, s, w)
         \<and> run_ops s ops w =
             (s\<lparr>lbs_buffer :=
                  lbs_buffer s @ filter (\<lambda>c. c \<noteq> CR \<and> c \<noteq> LF) (written ops)\<rparr>, w)"
  using assms run_ops_None [OF assms, of ops w]
  by (simp add: LineBufferStreambuf_new_def flush_line_None overflow_LF sync_def)

theorem C9_empty_callback_retains_witness:
  "run_ops (LineBufferStreambuf_new None) (map Put (''ab'' @ [CR, LF] @ ''cd'' @ [LF]) @ [Flush])
       ([] :: string list)
     = (\<lparr>lbs_callback = None, lbs_buffer = ''abcd''\<rparr>, [])"
proof -
  have n: "lbs_callback (LineBufferStreambuf_new None :: string list LineBufferStreambuf) = None"
    by (simp add: LineBufferStreambuf_new_def)
  from C9_empty_callback_retains [OF n,
      of "[]" "map Put (''ab'' @ [CR, LF] @ ''cd'' @ [LF]) @ [Flush]"]
  show ?thesis
    by (simp add: LineBufferStreambuf_new_def)
qed

text \<open>
  C5 (as amended). In every state whose callback is not empty, \<open>sync\<close> on a non-empty
  buffer invokes the callback exactly once, on the buffer's content, and empties the
  buffer; \<open>sync\<close> on an empty buffer invokes nothing and changes nothing; so characters
  written without a terminator to an empty buffer and then flushed arrive as one line. In
  every state whatever, \<open>sync\<close> returns 0.
\<close>

theorem C5_sync_delivers_partial_line:
  assumes "lbs_callback s = Some cb"
  shows "(lbs_buffer s \<noteq> [] \<longrightarrow> sync s w = (0, s\<lparr>lbs_buffer := []\<rparr>, cb (lbs_buffer s) w))
         \<and> (lbs_buffer s = [] \<longrightarrow> sync s w = (0, s, w))
         \<and> (lbs_buffer s = [] \<and> cs \<noteq> [] \<and> CR \<notin> set cs \<and> LF \<notin> set cs \<longrightarrow>
              run_ops s (map Put cs @ [Flush]) w = (s, cb cs w))
         \<and> fst (sync t w) = 0"
  using assms
  by (simp add: sync_def flush_line_Some flush_line_empty run_ops_line(1))

theorem C5_sync_delivers_partial_line_witness:
  "run_ops (LineBufferStreambuf_new (Some record_line)) (map Put ''tail'' @ [Flush]) []
     = (LineBufferStreambuf_new (Some record_line), [''tail''])
   \<and> sync (LineBufferStreambuf_new (Some record_line)) [] 
     = (0, LineBufferStreambuf_new (Some record_line), [])"
proof -
  let ?s = "LineBufferStreambuf_new (Some record_line)"
  have cb: "lbs_callback ?s = Some record_line" and b: "lbs_buffer ?s = []"
    by (simp_all add: LineBufferStreambuf_new_def)
  note t = C5_sync_delivers_partial_line [OF cb, of "[]" "''tail''" ?s]
  have 1: "run_ops ?s (map Put ''tail'' @ [Flush]) [] = (?s, record_line ''tail'' [])"
    using t b by simp
  have 2: "sync ?s [] = (0, ?s, [])"
    using t b by blast
  from 1 2 show ?thesis
    by (simp add: record_line_def)
qed

text \<open>
  C5 as stated fails in a state whose callback is empty: after \<open>tail\<close> is written, \<open>sync\<close>
  invokes nothing and the buffer still holds \<open>tail\<close>.
\<close>

theorem C5_empty_callback_counterexample:
  "run_ops (LineBufferStreambuf_new None) (map Put ''tail'') ([] :: string list)
     = (\<lparr>lbs_callback = None, lbs_buffer = ''tail''\<rparr>, [])
   \<and> sync \<lparr>lbs_callback = None, lbs_buffer = ''tail''\<rparr> ([] :: string list)
     = (0, \<lparr>lbs_callback = None, lbs_buffer = ''tail''\<rparr>, [])"
  by (simp add: LineBufferStreambuf_new_def overflow_other sync_def flush_line_def)

section \<open>Facts about the command stream buffer\<close>

lemma pop_False_iff:
  "(\<exists>out' q'. pop q out = Some (False, out', q')) = (tsq_closed q \<and> tsq_queue q = [])"
  by (auto simp: pop_def split: list.splits)

lemma pop_False_same: "pop q out = Some (False, out', q') \<Longrightarrow> out' = out \<and> q' = q"
  by (auto simp: pop_def split: list.splits if_splits)

lemma pop_front:
  "tsq_queue q \<noteq> [] \<Longrightarrow>
     pop q out = Some (True, hd (tsq_queue q), q\<lparr>tsq_queue := tl (tsq_queue q)\<rparr>)"
  by (cases "tsq_queue q") (simp_all add: pop_def)

lemma underflow_end_of_input:
  assumes "\<not> csb_gptr s < csb_egptr s"
    and "pop (csb_queue s) (csb_current s) = Some (False, out', q')"
  shows "underflow s = Returned eof s"
proof -
  from pop_False_same [OF assms(2)] have "out' = csb_current s" and "q' = csb_queue s"
    by simp_all
  with assms show ?thesis
    by (simp add: underflow_def)
qed

lemma underflow_command:
  assumes "\<not> csb_gptr s < csb_egptr s"
    and "pop (csb_queue s) (csb_current s) = Some (True, cmd, q')"
    and "n = (if cmd \<noteq> [] \<and> last cmd \<noteq> LF then cmd @ [LF] else cmd)"
  shows "underflow s =
           Returned (to_int_type ((n @ [CHR 0x00]) ! 0))
             (setg CurrentData 0 0 (length n) (s\<lparr>csb_queue := q', csb_current := n\<rparr>))"
  using assms
  by (simp add: underflow_def Let_def read_gptr_def storage_def setg_def)

lemma get_area_setg:
  "get_area (setg CurrentData 0 0 (length n) (s\<lparr>csb_queue := q', csb_current := n\<rparr>)) = n"
  by (simp add: get_area_def storage_def setg_def)

lemma trailing_newlines_snoc:
  "trailing_newlines (bs @ [c]) = (if c = LF then Suc (trailing_newlines bs) else 0)"
  by (simp add: trailing_newlines_def)

lemma trailing_newlines_last:
  "bs \<noteq> [] \<Longrightarrow> (0 < trailing_newlines bs) = (last bs = LF)"
  by (induction bs rule: rev_induct) (simp_all add: trailing_newlines_snoc)

section \<open>Claims about the command stream buffer\<close>

text \<open>
  C2. In every queue state that holds an item, \<open>pop\<close> returns true with the oldest item
  and removes it, also when the queue has been closed; \<open>pop\<close> returns false exactly when
  the queue is closed and holds nothing; and when the \<open>pop\<close> that \<open>underflow\<close> makes on an
  exhausted get area returns false, \<open>underflow\<close> returns the end-of-file value.
\<close>

theorem C2_pop_drains_before_end_of_input:
  "(tsq_queue q \<noteq> [] \<longrightarrow>
      pop q out = Some (True, hd (tsq_queue q), q\<lparr>tsq_queue := tl (tsq_queue q)\<rparr>))
   \<and> (tsq_queue q \<noteq> [] \<longrightarrow>
      pop (close q) out = Some (True, hd (tsq_queue q), close (q\<lparr>tsq_queue := tl (tsq_queue q)\<rparr>)))
   \<and> ((\<exists>out' q'. pop q out = Some (False, out', q')) = (tsq_closed q \<and> tsq_queue q = []))
   \<and> (\<not> csb_gptr s < csb_egptr s
        \<and> (\<exists>out' q'. pop (csb_queue s) (csb_current s) = Some (False, out', q'))
      \<longrightarrow> underflow s = Returned eof s)"
proof -
  have "pop (close q) out
          = Some (True, hd (tsq_queue q), close (q\<lparr>tsq_queue := tl (tsq_queue q)\<rparr>))"
    if "tsq_queue q \<noteq> []"
    using that pop_front [of "close q" out] by (simp add: close_def)
  then show ?thesis
    using pop_front [of q out] pop_False_iff [of q out] underflow_end_of_input [of s]
    by blast
qed

theorem C2_pop_drains_before_end_of_input_witness:
  "pop (close (push ThreadSafeQueue_new ''x'')) '''' = Some (True, ''x'', close ThreadSafeQueue_new)
   \<and> pop (close ThreadSafeQueue_new) ''x'' = Some (False, ''x'', close ThreadSafeQueue_new)
   \<and> underflow (CommandStreambuf_new (close ThreadSafeQueue_new) (CHR 0x00))
       = Returned eof (CommandStreambuf_new (close ThreadSafeQueue_new) (CHR 0x00))"
proof -
  let ?q = "push (ThreadSafeQueue_new :: string ThreadSafeQueue) ''x''"
  let ?c = "close (ThreadSafeQueue_new :: string ThreadSafeQueue)"
  let ?s = "CommandStreambuf_new ?c (CHR 0x00)"
  note t = C2_pop_drains_before_end_of_input [of ?q "''''" ?s]
  have q: "tsq_queue ?q \<noteq> []" "hd (tsq_queue ?q) = ''x''"
    "close (?q\<lparr>tsq_queue := tl (tsq_queue ?q)\<rparr>) = ?c"
    by (simp_all add: push_def ThreadSafeQueue_new_def close_def)
  have 1: "pop (close ?q) '''' = Some (True, ''x'', ?c)"
    using t q by simp
  have 2: "pop ?c ''x'' = Some (False, ''x'', ?c)"
    by (simp add: pop_def close_def ThreadSafeQueue_new_def)
  have g: "\<not> csb_gptr ?s < csb_egptr ?s" "csb_queue ?s = ?c" "csb_current ?s = []"
    by (simp_all add: CommandStreambuf_new_def setg_def)
  have "pop (csb_queue ?s) (csb_current ?s) = Some (False, [], ?c)"
    unfolding g(2,3) by (simp add: pop_def close_def ThreadSafeQueue_new_def)
  with t g(1) have 3: "underflow ?s = Returned eof ?s"
    by blast
  from 1 2 3 show ?thesis
    by blast
qed

text \<open>
  C4 (as amended). When the command that \<open>underflow\<close> pops is not empty, the bytes it
  leaves for the reader end with a newline: they are the command itself when that already
  ends with a newline, and the command followed by exactly one newline otherwise. So the
  number of newlines they end with is that of the command, or one when the command ends
  with none.
\<close>

theorem C4_command_ends_with_newline:
  assumes "\<not> csb_gptr s < csb_egptr s"
    and "pop (csb_queue s) (csb_current s) = Some (True, cmd, q')"
    and "cmd \<noteq> []"
  shows "exposed (underflow s) = Some (if last cmd = LF then cmd else cmd @ [LF])
         \<and> last (if last cmd = LF then cmd else cmd @ [LF]) = LF
         \<and> trailing_newlines (if last cmd = LF then cmd else cmd @ [LF])
             = max 1 (trailing_newlines cmd)"
proof -
  let ?n = "if last cmd = LF then cmd else cmd @ [LF]"
  have n: "?n = (if cmd \<noteq> [] \<and> last cmd \<noteq> LF then cmd @ [LF] else cmd)"
    using assms(3) by simp
  have "exposed (underflow s) = Some ?n"
    unfolding underflow_command [OF assms(1,2) n]
    by (simp add: exposed_def get_area_setg)
  moreover have "last ?n = LF"
    by simp
  moreover have "trailing_newlines ?n = max 1 (trailing_newlines cmd)"
    using trailing_newlines_last [OF assms(3)]
    by (auto simp: trailing_newlines_snoc)
  ultimately show ?thesis
    by blast
qed

theorem C4_command_ends_with_newline_witness:
  "exposed (underflow (CommandStreambuf_new (push ThreadSafeQueue_new ''uci'') (CHR 0x00)))
     = Some (''uci'' @ [LF])
   \<and> exposed (underflow (CommandStreambuf_new (push ThreadSafeQueue_new (''uci'' @ [LF])) (CHR 0x00)))
     = Some (''uci'' @ [LF])"
proof -
  let ?s = "CommandStreambuf_new (push ThreadSafeQueue_new ''uci'') (CHR 0x00)"
  let ?t = "CommandStreambuf_new (push ThreadSafeQueue_new (''uci'' @ [LF])) (CHR 0x00)"
  have s: "\<not> csb_gptr ?s < csb_egptr ?s"
    "pop (csb_queue ?s) (csb_current ?s) = Some (True, ''uci'', ThreadSafeQueue_new)"
    by (simp_all add: CommandStreambuf_new_def setg_def pop_def push_def ThreadSafeQueue_new_def)
  have t: "\<not> csb_gptr ?t < csb_egptr ?t"
    "pop (csb_queue ?t) (csb_current ?t) = Some (True, ''uci'' @ [LF], ThreadSafeQueue_new)"
    by (simp_all add: CommandStreambuf_new_def setg_def pop_def push_def ThreadSafeQueue_new_def)
  from C4_command_ends_with_newline [OF s] C4_command_ends_with_newline [OF t]
  show ?thesis
    by simp
qed

text \<open>
  C4 as stated fails on two commands. The empty command gets no newline: the reader is
  left an empty byte sequence. A command that already ends with two newlines keeps both.
\<close>

theorem C4_exactly_one_newline_counterexample:
  "exposed (underflow (CommandStreambuf_new (push ThreadSafeQueue_new '''') (CHR 0x00)))
     = Some ''''
   \<and> trailing_newlines '''' = 0
   \<and> exposed (underflow
        (CommandStreambuf_new (push ThreadSafeQueue_new (''go'' @ [LF, LF])) (CHR 0x00)))
     = Some (''go'' @ [LF, LF])
   \<and> trailing_newlines (''go'' @ [LF, LF]) = 2"
  by (simp add: exposed_def underflow_def CommandStreambuf_new_def setg_def pop_def push_def
      ThreadSafeQueue_new_def read_gptr_def storage_def get_area_def trailing_newlines_def)

text \<open>
  C8. When the command that \<open>underflow\<close> pops is the empty string, no newline is appended
  and the get area installed is empty, its three pointers equal; the read through the get
  pointer is then at the offset equal to the get area's length, which lies inside the
  string's array because of the terminating null character; \<open>underflow\<close> returns that
  character's value 0, which is neither the end-of-file value nor a blocked call nor an
  access outside the array.
\<close>

theorem C8_empty_command_reads_terminator:
  assumes "\<not> csb_gptr s < csb_egptr s"
    and "pop (csb_queue s) (csb_current s) = Some (True, [], q')"
  shows "(let s' = setg CurrentData 0 0 0 (s\<lparr>csb_queue := q', csb_current := []\<rparr>) in
            underflow s = Returned 0 s'
            \<and> csb_current s' = []
            \<and> csb_eback s' = csb_gptr s' \<and> csb_gptr s' = csb_egptr s'
            \<and> get_area s' = []
            \<and> csb_gptr s' = length (get_area s')
            \<and> csb_gptr s' < length (storage s')
            \<and> read_gptr s' = Some (CHR 0x00))
         \<and> to_int_type (CHR 0x00) = 0
         \<and> eof \<noteq> 0"
proof -
  have "underflow s
          = Returned (to_int_type (([] @ [CHR 0x00]) ! 0))
              (setg CurrentData 0 0 (length ([] :: string))
                 (s\<lparr>csb_queue := q', csb_current := []\<rparr>))"
    by (rule underflow_command [OF assms]) simp
  then show ?thesis
    by (simp add: Let_def to_int_type_def eof_def setg_def get_area_def storage_def
        read_gptr_def)
qed

theorem C8_empty_command_reads_terminator_witness:
  "underflow (CommandStreambuf_new (push ThreadSafeQueue_new '''') (CHR ''?''))
     = Returned 0
         \<lparr>csb_queue = ThreadSafeQueue_new, csb_current = [], csb_buffer = [CHR ''?''],
          csb_region = CurrentData, csb_eback = 0, csb_gptr = 0, csb_egptr = 0\<rparr>"
proof -
  let ?s = "CommandStreambuf_new (push ThreadSafeQueue_new '''') (CHR ''?'')"
  have s: "\<not> csb_gptr ?s < csb_egptr ?s"
    "pop (csb_queue ?s) (csb_current ?s) = Some (True, [], ThreadSafeQueue_new)"
    by (simp_all add: CommandStreambuf_new_def setg_def pop_def push_def ThreadSafeQueue_new_def)
  from C8_empty_command_reads_terminator [OF s]
  show ?thesis
    by (simp add: Let_def CommandStreambuf_new_def setg_def push_def ThreadSafeQueue_new_def)
qed

section \<open>Facts about the redirection\<close>

lemma StreamRedirector_ctor_eq:
  "StreamRedirector_ctor i out p =
     (\<lparr>oldInBuf = cin_rdbuf p, oldOutBuf = cout_rdbuf p\<rparr>, p\<lparr>cin_rdbuf := i, cout_rdbuf := out\<rparr>)"
  by (simp add: StreamRedirector_ctor_def)

lemma StreamRedirector_dtor_rdbuf:
  "cin_rdbuf (StreamRedirector_dtor r p) = oldInBuf r"
  "cout_rdbuf (StreamRedirector_dtor r p) = oldOutBuf r"
  "world (StreamRedirector_dtor r p) = world p"
  by (simp_all add: StreamRedirector_dtor_def)

lemma cout_write_bound:
  "line_buffers p (cout_rdbuf p) = Some sb \<Longrightarrow>
     cout_write ops p =
       p\<lparr>line_buffers := (line_buffers p)(cout_rdbuf p \<mapsto> fst (run_ops sb ops (world p))),
         world := snd (run_ops sb ops (world p))\<rparr>"
  by (simp add: cout_write_def split: prod.splits)

lemma banner_written:
  assumes "line_buffers p out = Some sb" and "lbs_callback sb = Some cb"
    and "lbs_buffer sb = []" and "info \<noteq> []" and "CR \<notin> set info" and "LF \<notin> set info"
  shows "cout_write (map Put info @ [Put LF, Flush]) (p\<lparr>cin_rdbuf := i, cout_rdbuf := out\<rparr>)
           = p\<lparr>cin_rdbuf := i, cout_rdbuf := out, world := cb info (world p)\<rparr>"
proof -
  let ?p = "p\<lparr>cin_rdbuf := i, cout_rdbuf := out\<rparr>"
  have b: "line_buffers ?p (cout_rdbuf ?p) = Some sb"
    using assms(1) by simp
  have r: "run_ops sb (map Put info @ [Put LF, Flush]) (world ?p) = (sb, cb info (world p))"
    using run_ops_line(2) [OF assms(2-6), of "world p"] by simp
  have "(line_buffers p)(out \<mapsto> sb) = line_buffers p"
    using assms(1) by (rule map_upd_triv)
  then show ?thesis
    unfolding cout_write_bound [OF b] r by simp
qed

section \<open>Claims about the redirection\<close>

text \<open>
  C7. On both ways out of \<open>RunStockfishUCI\<close>, the normal return of the engine part and the
  unwinding of the stack by an exception, the stream buffers bound to \<^verbatim>\<open>std::cin\<close> and
  \<^verbatim>\<open>std::cout\<close> afterwards are the ones bound before the call, whatever the engine part
  did to the bindings in between; and the call leaves exactly when the engine part does,
  the same way.
\<close>

theorem C7_redirection_restored:
  "(RunStockfishUCI in_rdbuf out_rdbuf info engine p = Some (e, p') \<longrightarrow>
      cin_rdbuf p' = cin_rdbuf p \<and> cout_rdbuf p' = cout_rdbuf p)
   \<and> (engine (cout_write (map Put info @ [Put LF, Flush])
                 (p\<lparr>cin_rdbuf := in_rdbuf, cout_rdbuf := out_rdbuf\<rparr>)) = Some (e, p3) \<longrightarrow>
        RunStockfishUCI in_rdbuf out_rdbuf info engine p
          = Some (e, p3\<lparr>cin_rdbuf := cin_rdbuf p, cout_rdbuf := cout_rdbuf p\<rparr>))"
  by (auto simp: RunStockfishUCI_def StreamRedirector_ctor_eq StreamRedirector_dtor_def
      split: option.splits)

theorem C7_redirection_restored_witness:
  "RunStockfishUCI 3 4 ''Stockfish'' (\<lambda>p. Some (Unwind, p\<lparr>cin_rdbuf := 9, cout_rdbuf := 9\<rparr>))
       \<lparr>cin_rdbuf = 1, cout_rdbuf = 2,
        line_buffers = Map.empty(4 \<mapsto> LineBufferStreambuf_new (Some record_line)),
        command_bufs = Map.empty, world = []\<rparr>
     = Some (Unwind,
         \<lparr>cin_rdbuf = 1, cout_rdbuf = 2,
          line_buffers = Map.empty(4 \<mapsto> LineBufferStreambuf_new (Some record_line)),
          command_bufs = Map.empty, world = [''Stockfish'']\<rparr>)
   \<and> RunStockfishUCI 3 4 ''Stockfish'' (\<lambda>p. Some (NormalReturn, p))
       \<lparr>cin_rdbuf = 1, cout_rdbuf = 2,
        line_buffers = Map.empty(4 \<mapsto> LineBufferStreambuf_new (Some record_line)),
        command_bufs = Map.empty, world = []\<rparr>
     = Some (NormalReturn,
         \<lparr>cin_rdbuf = 1, cout_rdbuf = 2,
          line_buffers = Map.empty(4 \<mapsto> LineBufferStreambuf_new (Some record_line)),
          command_bufs = Map.empty, world = [''Stockfish'']\<rparr>)"
proof -
  let ?sb = "LineBufferStreambuf_new (Some record_line)"
  let ?p = "\<lparr>cin_rdbuf = 1, cout_rdbuf = 2, line_buffers = Map.empty(4 \<mapsto> ?sb),
             command_bufs = Map.empty, world = []\<rparr>"
  let ?throw = "\<lambda>p :: string list process. Some (Unwind, p\<lparr>cin_rdbuf := 9, cout_rdbuf := 9\<rparr>)"
  let ?ret = "\<lambda>p :: string list process. Some (NormalReturn, p)"
  have sb: "lbs_callback ?sb = Some record_line" "lbs_buffer ?sb = []"
    by (simp_all add: LineBufferStreambuf_new_def)
  have w: "cout_write (map Put ''Stockfish'' @ [Put LF, Flush]) (?p\<lparr>cin_rdbuf := 3, cout_rdbuf := 4\<rparr>)
             = ?p\<lparr>cin_rdbuf := 3, cout_rdbuf := 4, world := record_line ''Stockfish'' (world ?p)\<rparr>"
    by (rule banner_written [OF _ sb]) simp_all
  have 1: "RunStockfishUCI 3 4 ''Stockfish'' ?throw ?p
             = Some (Unwind, ?p\<lparr>world := [''Stockfish'']\<rparr>)"
    using C7_redirection_restored [of 3 4 "''Stockfish''" ?throw ?p Unwind _
        "?p\<lparr>cin_rdbuf := 9, cout_rdbuf := 9, world := [''Stockfish'']\<rparr>"]
    unfolding w by (simp add: record_line_def)
  have 2: "RunStockfishUCI 3 4 ''Stockfish'' ?ret ?p
             = Some (NormalReturn, ?p\<lparr>world := [''Stockfish'']\<rparr>)"
    using C7_redirection_restored [of 3 4 "''Stockfish''" ?ret ?p NormalReturn _
        "?p\<lparr>cin_rdbuf := 3, cout_rdbuf := 4, world := [''Stockfish'']\<rparr>"]
    unfolding w by (simp add: record_line_def)
  from 1 2 show ?thesis
    by simp
qed

text \<open>
  C10 (as amended). In every run in which the output stream handed to \<open>RunStockfishUCI\<close>
  is a line buffer with a non-empty callback and nothing pending, and the engine
  identification is one non-empty line (no carriage return, no newline in it), the engine
  part starts in a state in which the callback has been invoked exactly once, on the
  identification string, nothing is pending, and no command buffer has been touched: this
  holds for every engine part and every content of the command queues. Whatever the
  engine part then writes to \<^verbatim>\<open>std::cout\<close> is delivered after that line.
\<close>

theorem C10_banner_is_first_line:
  assumes "line_buffers p out_rdbuf = Some sb" and "lbs_callback sb = Some cb"
    and "lbs_buffer sb = []"
    and "info \<noteq> []" and "CR \<notin> set info" and "LF \<notin> set info"
  shows "RunStockfishUCI in_rdbuf out_rdbuf info engine p =
           (case engine (p\<lparr>cin_rdbuf := in_rdbuf, cout_rdbuf := out_rdbuf,
                           world := cb info (world p)\<rparr>) of
              None \<Rightarrow> None
            | Some (e, p3) \<Rightarrow>
                Some (e, p3\<lparr>cin_rdbuf := cin_rdbuf p, cout_rdbuf := cout_rdbuf p\<rparr>))
         \<and> map_option (\<lambda>(e, p'). world p')
             (RunStockfishUCI in_rdbuf out_rdbuf info (scripted_engine ops x) p)
             = Some (snd (run_ops sb ops (cb info (world p))))"
proof -
  let ?p2 = "p\<lparr>cin_rdbuf := in_rdbuf, cout_rdbuf := out_rdbuf, world := cb info (world p)\<rparr>"
  have run: "RunStockfishUCI in_rdbuf out_rdbuf info f p =
               (case f ?p2 of
                  None \<Rightarrow> None
                | Some (e, p3) \<Rightarrow>
                    Some (e, p3\<lparr>cin_rdbuf := cin_rdbuf p, cout_rdbuf := cout_rdbuf p\<rparr>))" for f
    unfolding RunStockfishUCI_def StreamRedirector_ctor_eq
    by (simp add: banner_written [OF assms] StreamRedirector_dtor_def split: option.splits)
  have b: "line_buffers ?p2 (cout_rdbuf ?p2) = Some sb"
    using assms(1) by simp
  have "map_option (\<lambda>(e, p'). world p')
          (RunStockfishUCI in_rdbuf out_rdbuf info (scripted_engine ops x) p)
          = Some (snd (run_ops sb ops (cb info (world p))))"
    unfolding run scripted_engine_def cout_write_bound [OF b] by simp
  with run [of engine] show ?thesis
    by blast
qed

theorem C10_banner_is_first_line_witness:
  "map_option (\<lambda>(e, p'). world p')
     (RunStockfishUCI 3 4 ''Stockfish''
        (scripted_engine (map Put (''uciok'' @ [LF])) NormalReturn)
        \<lparr>cin_rdbuf = 1, cout_rdbuf = 2,
         line_buffers = Map.empty(4 \<mapsto> LineBufferStreambuf_new (Some record_line)),
         command_bufs =
           Map.empty(3 \<mapsto> CommandStreambuf_new (push ThreadSafeQueue_new ''uci'') (CHR 0x00)),
         world = []\<rparr>)
     = Some [''Stockfish'', ''uciok'']"
proof -
  let ?sb = "LineBufferStreambuf_new (Some record_line)"
  let ?p = "\<lparr>cin_rdbuf = 1, cout_rdbuf = 2, line_buffers = Map.empty(4 \<mapsto> ?sb),
             command_bufs =
               Map.empty(3 \<mapsto> CommandStreambuf_new (push ThreadSafeQueue_new ''uci'') (CHR 0x00)),
             world = []\<rparr>"
  have sb: "line_buffers ?p 4 = Some ?sb" "lbs_callback ?sb = Some record_line"
    "lbs_buffer ?sb = []"
    by (simp_all add: LineBufferStreambuf_new_def)
  have i: "''Stockfish'' \<noteq> []" "CR \<notin> set ''Stockfish''" "LF \<notin> set ''Stockfish''"
    by simp_all
  have r: "snd (run_ops ?sb (map Put (''uciok'' @ [LF])) (record_line ''Stockfish'' []))
             = [''Stockfish'', ''uciok'']"
    by (simp add: LineBufferStreambuf_new_def overflow_LF overflow_other flush_line_def
        record_line_def)
  have w: "world ?p = []"
    by simp
  note t = C10_banner_is_first_line [OF sb i, of 3 _ "map Put (''uciok'' @ [LF])" NormalReturn]
  from t [THEN conjunct2] show ?thesis
    unfolding w r .
qed

text \<open>
  C10 as stated fails for two states of the output stream. When the line buffer already
  holds \<open>pre\<close>, the first line delivered is \<open>preStockfish\<close>, not the identification
  string. When its callback is empty, the run delivers no line at all.
\<close>

theorem C10_pending_or_no_callback_counterexample:
  "map_option (\<lambda>(e, p'). world p')
     (RunStockfishUCI 3 4 ''Stockfish''
        (scripted_engine (map Put (''uciok'' @ [LF])) NormalReturn)
        \<lparr>cin_rdbuf = 1, cout_rdbuf = 2,
         line_buffers =
           Map.empty(4 \<mapsto> \<lparr>lbs_callback = Some record_line, lbs_buffer = ''pre''\<rparr>),
         command_bufs = Map.empty, world = []\<rparr>)
     = Some [''preStockfish'', ''uciok'']
   \<and> map_option (\<lambda>(e, p'). world p')
     (RunStockfishUCI 3 4 ''Stockfish''
        (scripted_engine (map Put (''uciok'' @ [LF])) NormalReturn)
        \<lparr>cin_rdbuf = 1, cout_rdbuf = 2,
         line_buffers = Map.empty(4 \<mapsto> LineBufferStreambuf_new None),
         command_bufs = Map.empty, world = ([] :: string list)\<rparr>)
     = Some []"
  by (simp add: RunStockfishUCI_def StreamRedirector_ctor_eq StreamRedirector_dtor_def
      scripted_engine_def cout_write_def LineBufferStreambuf_new_def overflow_LF overflow_other
      sync_def flush_line_def record_line_def)

end
